theory Spec2Isabelle
  imports Complex_Main "HOL-Library.Sublist"
begin

section \<open>The store\<close>

text \<open>
  The program is a Flask application over one SQLite file (\<^verbatim>\<open>src/app.py\<close>). Every
  handler opens its own connection, runs its statements and commits or rolls back, so a
  handler is modelled as a function from the database before the request to a response
  and the database after it. A rollback returns the database it started from.

  Modelling decisions, all visible in the definitions below:
  \<^item> Python integers are unbounded and are modelled by \<open>int\<close>; the 64-bit bound of an
    SQLite INTEGER column is not modelled.
  \<^item> Python floats (\<^verbatim>\<open>REAL\<close> columns, prices, tax rates) are modelled by exact \<open>real\<close>
    numbers; IEEE rounding is not modelled.
  \<^item> A request body is a typed record: an optional JSON key is an \<open>option\<close> field, with
    \<open>None\<close> for an absent key. Bodies with missing mandatory keys or values of the wrong
    JSON type are outside the model.
  \<^item> \<^verbatim>\<open>products\<close>, \<^verbatim>\<open>orders\<close> and \<^verbatim>\<open>categories\<close> have a primary key and are maps (a set for
    \<^verbatim>\<open>categories\<close>, whose only column is the key); \<^verbatim>\<open>order_items\<close> has none and is the
    list of its rows in insertion order.
  \<^item> SQLite enforces foreign keys only on a connection that has executed
    \<^verbatim>\<open>PRAGMA foreign_keys = ON\<close>; the setting is not stored in the database file. Only
    \<^verbatim>\<open>init_db\<close> executes it, on its own connection, so the statements of the request
    handlers run without foreign-key checks and without foreign-key actions.
\<close>

record product =
  name :: string
  category :: "string option"
  quantity :: int
  price :: real

record order_row =
  customer_name :: string
  mobile_number :: string
  email_address :: "string option"
  order_date :: string
  planned_delivery_date :: "string option"
  payment_method :: "string option"
  advance_received :: real
  personalization_required :: int
  personalization_details :: string
  total_cost :: real
  gst_rate :: real

record order_item_row =
  order_id :: string
  product_sku :: string
  row_quantity :: int
  row_price :: real
  product_name :: string

record db =
  categories :: "string set"
  products :: "string \<rightharpoonup> product"
  last_number :: int
  orders :: "string \<rightharpoonup> order_row"
  order_items :: "order_item_row list"

text \<open>The JSON body of a create or update request, and one element of its \<^verbatim>\<open>items\<close>.\<close>

record item =
  sku :: string
  item_product_name :: string
  item_quantity :: int
  item_price :: real

record order_data =
  customerName :: string
  mobileNumber :: string
  emailAddress :: "string option"
  orderDate :: string
  plannedDeliveryDate :: "string option"
  paymentMethod :: "string option"
  advanceReceived :: "real option"
  personalizationRequired :: bool
  personalizationDetails :: "string option"
  items :: "item list"
  gstRate :: "real option"


text \<open>
  The exceptions the handlers raise themselves, and the one the store raises when an
  \<^verbatim>\<open>INSERT\<close> repeats a primary key.
\<close>

datatype error =
    ProductNotFound string
  | InsufficientStock string string int int
  | InsufficientStockAdditional string string int int
  | InventoryUpdateFailed string
  | OrderNotFound
  | IntegrityError

text \<open>A response: status 200 or 201 with a payload, status 404, or status 400 with \<^verbatim>\<open>str(e)\<close>.\<close>

datatype 'a response = Success 'a | NotFound | Failure error

definition GST_RATE :: real where
  "GST_RATE = 0.05"

section \<open>Formatting\<close>

definition digit_char :: "nat \<Rightarrow> char" where
  "digit_char d = ''0123456789'' ! d"

text \<open>\<^verbatim>\<open>str(n)\<close> for a natural number: its decimal digits, most significant first.\<close>

function str_nat :: "nat \<Rightarrow> string" where
  "str_nat n = (if n < 10 then [digit_char n] else str_nat (n div 10) @ [digit_char (n mod 10)])"
  by pat_completeness auto
termination
  by (relation "measure id") auto

declare str_nat.simps [simp del]

definition str_int :: "int \<Rightarrow> string" where
  "str_int i = (if i < 0 then CHR ''-'' # str_nat (nat (- i)) else str_nat (nat i))"

definition zero_pad :: "nat \<Rightarrow> string \<Rightarrow> string" where
  "zero_pad w ds = replicate (w - length ds) CHR ''0'' @ ds"

text \<open>
  The format specification \<^verbatim>\<open>04d\<close>: zero fill to width 4, the sign (only a minus is
  written) before the zeros and counted in the width.
\<close>

definition format_04d :: "int \<Rightarrow> string" where
  "format_04d i =
     (if i < 0 then CHR ''-'' # zero_pad 3 (str_nat (nat (- i))) else zero_pad 4 (str_nat (nat i)))"

definition new_order_id_of :: "int \<Rightarrow> string" where
  "new_order_id_of new_number = ''ORD'' @ format_04d new_number"

text \<open>\<^verbatim>\<open>str(e)\<close>, the text of the \<^verbatim>\<open>error\<close> field of a 400 response.\<close>

fun message :: "error \<Rightarrow> string" where
  "message (ProductNotFound k) =
     ''Product with SKU '' @ [CHR 0x27] @ k @ [CHR 0x27] @ '' not found.''"
| "message (InsufficientStock nm k available wanted) =
     ''Insufficient stock for '' @ nm @ '' (SKU: '' @ k @ ''). Available: '' @
     str_int available @ '', requested: '' @ str_int wanted @ ''.''"
| "message (InsufficientStockAdditional nm k available needed) =
     ''Insufficient stock for '' @ nm @ '' (SKU: '' @ k @ ''). Available: '' @
     str_int available @ '', additional needed: '' @ str_int needed @ ''.''"
| "message (InventoryUpdateFailed k) =
     ''Failed to update inventory for SKU '' @ [CHR 0x27] @ k @ [CHR 0x27] @ ''.''"
| "message OrderNotFound = ''Order not found''"
| "message IntegrityError = ''UNIQUE constraint failed: orders.id''"

section \<open>Statements shared by the handlers\<close>

text \<open>
  \<^verbatim>\<open>UPDATE products SET quantity = quantity - ? WHERE sku = ?\<close> and its \<^verbatim>\<open>+\<close> twin. The
  first component of the result is \<^verbatim>\<open>cursor.rowcount\<close>.
\<close>

definition subtract_quantity :: "int \<Rightarrow> string \<Rightarrow> db \<Rightarrow> nat \<times> db" where
  "subtract_quantity n k s =
     (case products s k of
        None \<Rightarrow> (0, s)
      | Some row \<Rightarrow> (1, s\<lparr>products := (products s)(k \<mapsto> row\<lparr>quantity := quantity row - n\<rparr>)\<rparr>))"

definition add_quantity :: "int \<Rightarrow> string \<Rightarrow> db \<Rightarrow> nat \<times> db" where
  "add_quantity n k s =
     (case products s k of
        None \<Rightarrow> (0, s)
      | Some row \<Rightarrow> (1, s\<lparr>products := (products s)(k \<mapsto> row\<lparr>quantity := quantity row + n\<rparr>)\<rparr>))"

text \<open>The row \<^verbatim>\<open>INSERT INTO order_items\<close> writes for one element of \<^verbatim>\<open>items\<close>.\<close>

definition item_row :: "string \<Rightarrow> item \<Rightarrow> order_item_row" where
  "item_row oid it =
     \<lparr>order_id = oid, product_sku = sku it, row_quantity = item_quantity it,
      row_price = item_price it, product_name = item_product_name it\<rparr>"

text \<open>\<^verbatim>\<open>sum(float(item['price']) * int(item['quantity']) for item in items)\<close>\<close>

definition subtotal_of :: "item list \<Rightarrow> real" where
  "subtotal_of its = sum_list (map (\<lambda>it. item_price it * real_of_int (item_quantity it)) its)"

text \<open>
  The values both order handlers read from the body at their start and bind to the
  columns of \<^verbatim>\<open>orders\<close>, with the total and the rate they computed. The payment
  method is an argument because \<^verbatim>\<open>update_order\<close> first turns an empty one into
  \<^verbatim>\<open>None\<close>.
\<close>

definition header_row :: "order_data \<Rightarrow> string option \<Rightarrow> real \<Rightarrow> real \<Rightarrow> order_row" where
  "header_row od pm cost gst =
     \<lparr>customer_name = customerName od, mobile_number = mobileNumber od,
      email_address = emailAddress od, order_date = orderDate od,
      planned_delivery_date = plannedDeliveryDate od, payment_method = pm,
      advance_received = (case advanceReceived od of None \<Rightarrow> 0 | Some a \<Rightarrow> a),
      personalization_required = (if personalizationRequired od then 1 else 0),
      personalization_details = (case personalizationDetails od of None \<Rightarrow> [] | Some d \<Rightarrow> d),
      total_cost = cost, gst_rate = gst\<rparr>"

section \<open>Creating an order\<close>

text \<open>The first loop of \<^verbatim>\<open>handle_create_order\<close>: the exception it raises, if any.\<close>

fun validate_stock :: "db \<Rightarrow> item list \<Rightarrow> error option" where
  "validate_stock s [] = None"
| "validate_stock s (it # its) =
     (case products s (sku it) of
        None \<Rightarrow> Some (ProductNotFound (sku it))
      | Some row \<Rightarrow>
          if quantity row < item_quantity it
          then Some (InsufficientStock (name row) (sku it) (quantity row) (item_quantity it))
          else validate_stock s its)"

text \<open>The last loop: one \<^verbatim>\<open>UPDATE\<close> per element, an exception when it changed no row.\<close>

fun subtract_stock :: "item list \<Rightarrow> db \<Rightarrow> error + db" where
  "subtract_stock [] s = Inr s"
| "subtract_stock (it # its) s =
     (case subtract_quantity (item_quantity it) (sku it) s of
        (rowcount, s') \<Rightarrow>
          if rowcount = 0 then Inl (InventoryUpdateFailed (sku it)) else subtract_stock its s')"

text \<open>The body of the \<^verbatim>\<open>try\<close> block: the exception raised, or the new id and the database.\<close>

definition create_order_body :: "order_data \<Rightarrow> db \<Rightarrow> error + string \<times> db" where
  "create_order_body od s =
     (let gst = (case gstRate od of None \<Rightarrow> GST_RATE | Some r \<Rightarrow> r) in
      case validate_stock s (items od) of
        Some e \<Rightarrow> Inl e
      | None \<Rightarrow>
          let new_number = last_number s + 1;
              new_order_id = new_order_id_of new_number;
              s1 = s\<lparr>last_number := new_number\<rparr>;
              subtotal = subtotal_of (items od);
              total = subtotal + subtotal * gst
          in if orders s1 new_order_id \<noteq> None then Inl IntegrityError
             else
               let header = header_row od (paymentMethod od) total gst;
                   s2 = s1\<lparr>orders := (orders s1)(new_order_id \<mapsto> header)\<rparr>;
                   s3 = s2\<lparr>order_items := order_items s2 @ map (item_row new_order_id) (items od)\<rparr>
               in (case subtract_stock (items od) s3 of
                     Inl e \<Rightarrow> Inl e
                   | Inr s4 \<Rightarrow> Inr (new_order_id, s4)))"

definition handle_create_order :: "order_data \<Rightarrow> db \<Rightarrow> string response \<times> db" where
  "handle_create_order od s =
     (case create_order_body od s of
        Inl e \<Rightarrow> (Failure e, s)
      | Inr (new_order_id, s') \<Rightarrow> (Success new_order_id, s'))"

section \<open>Reading an order\<close>


section \<open>Updating an order\<close>

text \<open>\<^verbatim>\<open>d.get(k, 0)\<close>\<close>

definition get0 :: "(string \<rightharpoonup> int) \<Rightarrow> string \<Rightarrow> int" where
  "get0 d k = (case d k of None \<Rightarrow> 0 | Some v \<Rightarrow> v)"

text \<open>The two loops that add up the quantities per sku into a dict.\<close>

fun aggregate :: "(string \<times> int) list \<Rightarrow> (string \<rightharpoonup> int) \<Rightarrow> (string \<rightharpoonup> int)" where
  "aggregate [] d = d"
| "aggregate ((k, q) # rows) d = aggregate rows (d(k \<mapsto> get0 d k + q))"

definition old_items_of :: "string \<Rightarrow> db \<Rightarrow> (string \<rightharpoonup> int)" where
  "old_items_of oid s =
     aggregate (map (\<lambda>r. (product_sku r, row_quantity r))
                  (filter (\<lambda>r. order_id r = oid) (order_items s))) Map.empty"

definition new_map_of :: "item list \<Rightarrow> (string \<rightharpoonup> int)" where
  "new_map_of new_items = aggregate (map (\<lambda>it. (sku it, item_quantity it)) new_items) Map.empty"

text \<open>
  \<^verbatim>\<open>for sku in set(old_items.keys()) | set(new_map.keys())\<close>: Python does not specify
  the order in which a set is iterated, so the order is an argument \<open>ks\<close> of the model,
  and \<open>iteration_order\<close> says that \<open>ks\<close> lists that set, each element once. The dict
  \<^verbatim>\<open>deltas\<close> keeps its keys in insertion order, so both later loops follow \<open>ks\<close> too.
\<close>

definition iteration_order :: "string list \<Rightarrow> string \<Rightarrow> item list \<Rightarrow> db \<Rightarrow> bool" where
  "iteration_order ks oid new_items s \<longleftrightarrow>
     distinct ks \<and>
     set ks = set (map product_sku (filter (\<lambda>r. order_id r = oid) (order_items s)))
              \<union> set (map sku new_items)"

definition deltas_of ::
  "string list \<Rightarrow> (string \<rightharpoonup> int) \<Rightarrow> (string \<rightharpoonup> int) \<Rightarrow> (string \<times> int) list" where
  "deltas_of ks old_items new_map = map (\<lambda>k. (k, get0 new_map k - get0 old_items k)) ks"

fun validate_deltas :: "db \<Rightarrow> (string \<times> int) list \<Rightarrow> error option" where
  "validate_deltas s [] = None"
| "validate_deltas s ((k, delta) # rest) =
     (if delta > 0 then
        (case products s k of
           None \<Rightarrow> Some (ProductNotFound k)
         | Some row \<Rightarrow>
             if quantity row < delta
             then Some (InsufficientStockAdditional (name row) k (quantity row) delta)
             else validate_deltas s rest)
      else validate_deltas s rest)"

fun apply_deltas :: "(string \<times> int) list \<Rightarrow> db \<Rightarrow> db" where
  "apply_deltas [] s = s"
| "apply_deltas ((k, delta) # rest) s =
     apply_deltas rest (if delta \<noteq> 0 then snd (subtract_quantity delta k s) else s)"

definition update_order_body ::
  "string list \<Rightarrow> string \<Rightarrow> order_data \<Rightarrow> db \<Rightarrow> error + db" where
  "update_order_body ks oid od s =
     (let new_items = items od;
          incoming_gst_rate = gstRate od;
          old_items = old_items_of oid s;
          new_map = new_map_of new_items;
          deltas = deltas_of ks old_items new_map
      in case validate_deltas s deltas of
           Some e \<Rightarrow> Inl e
         | None \<Rightarrow>
             let gst =
                   (case incoming_gst_rate of
                      None \<Rightarrow> (case orders s oid of None \<Rightarrow> GST_RATE | Some row \<Rightarrow> gst_rate row)
                    | Some r \<Rightarrow> r);
                 subtotal = subtotal_of new_items;
                 total = subtotal + subtotal * gst
             in (case orders s oid of
                   None \<Rightarrow> Inl OrderNotFound
                 | Some _ \<Rightarrow>
                    let header =
                          header_row od (case paymentMethod od of Some [] \<Rightarrow> None | pm \<Rightarrow> pm)
                            total gst;
                        s1 = s\<lparr>orders := (orders s)(oid \<mapsto> header)\<rparr>;
                        s2 = s1\<lparr>order_items := filter (\<lambda>r. order_id r \<noteq> oid) (order_items s1)\<rparr>;
                        s3 = s2\<lparr>order_items := order_items s2 @ map (item_row oid) new_items\<rparr>
                    in Inr (apply_deltas deltas s3)))"

definition update_order ::
  "string list \<Rightarrow> string \<Rightarrow> order_data \<Rightarrow> db \<Rightarrow> string response \<times> db" where
  "update_order ks oid od s =
     (case update_order_body ks oid od s of
        Inl e \<Rightarrow> (Failure e, s)
      | Inr s' \<Rightarrow> (Success oid, s'))"

section \<open>Deleting an order\<close>

fun return_stock :: "order_item_row list \<Rightarrow> db \<Rightarrow> db" where
  "return_stock [] s = s"
| "return_stock (r # rows) s =
     return_stock rows (snd (add_quantity (row_quantity r) (product_sku r) s))"

text \<open>\<^verbatim>\<open>DELETE FROM orders WHERE id=?\<close>, with \<^verbatim>\<open>cursor.rowcount\<close>.\<close>

definition delete_order_row :: "string \<Rightarrow> db \<Rightarrow> nat \<times> db" where
  "delete_order_row oid s =
     (case orders s oid of
        None \<Rightarrow> (0, s)
      | Some _ \<Rightarrow> (1, s\<lparr>orders := (orders s)(oid := None)\<rparr>))"

definition delete_order :: "string \<Rightarrow> db \<Rightarrow> unit response \<times> db" where
  "delete_order oid s =
     (let rows = filter (\<lambda>r. order_id r = oid) (order_items s) in
      if rows = [] then
        (case delete_order_row oid s of
           (rowcount, s') \<Rightarrow> if rowcount = 0 then (NotFound, s') else (Success (), s'))
      else
        let s1 = return_stock rows s;
            s2 = s1\<lparr>order_items := filter (\<lambda>r. order_id r \<noteq> oid) (order_items s1)\<rparr>
        in case delete_order_row oid s2 of
             (rowcount, s') \<Rightarrow> if rowcount = 0 then (NotFound, s') else (Success (), s'))"

section \<open>Deleting a category\<close>

text \<open>
  A connection: the only setting the handlers could depend on is whether foreign keys
  are enforced. \<^verbatim>\<open>sqlite3.connect\<close> gives a connection with SQLite's default, which is
  off.
\<close>

record connection =
  foreign_keys :: bool

definition connect :: connection where
  "connect = \<lparr>foreign_keys = False\<rparr>"

text \<open>
  \<^verbatim>\<open>DELETE FROM categories WHERE name=?\<close>. The declared action of
  \<^verbatim>\<open>FOREIGN KEY(category) REFERENCES categories(name) ON DELETE SET NULL\<close> runs only on
  a connection that enforces foreign keys.
\<close>

definition delete_from_categories :: "connection \<Rightarrow> string \<Rightarrow> db \<Rightarrow> nat \<times> db" where
  "delete_from_categories conn nm s =
     (if nm \<in> categories s then
        (1, s\<lparr>categories := categories s - {nm},
              products :=
                (if foreign_keys conn
                 then (\<lambda>k. map_option
                              (\<lambda>p. if category p = Some nm then p\<lparr>category := None\<rparr> else p)
                              (products s k))
                 else products s)\<rparr>)
      else (0, s))"

definition delete_category :: "string \<Rightarrow> db \<Rightarrow> unit response \<times> db" where
  "delete_category nm s =
     (let conn = connect in
      case delete_from_categories conn nm s of
        (rowcount, s') \<Rightarrow> if rowcount = 0 then (NotFound, s') else (Success (), s'))"

section \<open>Notions used to state the properties\<close>

text \<open>
  The number a string of decimal digits denotes, and Python's \<^verbatim>\<open>int(s)\<close> on a string
  with an optional minus sign: the inverse of the formatting above.
\<close>

definition digit_value :: "char \<Rightarrow> nat" where
  "digit_value c = of_char c - 48"

definition decimal_value :: "string \<Rightarrow> nat" where
  "decimal_value ds = foldl (\<lambda>acc c. 10 * acc + digit_value c) 0 ds"

definition int_of_str :: "string \<Rightarrow> int" where
  "int_of_str ds =
     (case ds of
        [] \<Rightarrow> 0
      | c # cs \<Rightarrow> if c = CHR ''-'' then - int (decimal_value cs) else int (decimal_value ds))"

text \<open>The sum of the quantities an \<^verbatim>\<open>items\<close> list requests for one sku.\<close>

definition requested :: "item list \<Rightarrow> string \<Rightarrow> int" where
  "requested its k = sum_list (map item_quantity (filter (\<lambda>it. sku it = k) its))"

text \<open>The sum of the quantities the stored rows of one order hold for one sku.\<close>

definition reserved :: "string \<Rightarrow> db \<Rightarrow> string \<Rightarrow> int" where
  "reserved oid s k =
     sum_list (map row_quantity
       (filter (\<lambda>r. order_id r = oid \<and> product_sku r = k) (order_items s)))"

text \<open>The stock table after \<open>f k\<close> units of every sku \<open>k\<close> have been taken out.\<close>

definition consume :: "(string \<Rightarrow> int) \<Rightarrow> (string \<rightharpoonup> product) \<Rightarrow> (string \<rightharpoonup> product)" where
  "consume f m = (\<lambda>k. map_option (\<lambda>row. row\<lparr>quantity := quantity row - f k\<rparr>) (m k))"

text \<open>The test of the first loop of \<^verbatim>\<open>handle_create_order\<close> for one element.\<close>

definition insufficient :: "db \<Rightarrow> item \<Rightarrow> bool" where
  "insufficient s it =
     (case products s (sku it) of None \<Rightarrow> True | Some row \<Rightarrow> quantity row < item_quantity it)"

text \<open>The sku an exception's message names.\<close>

fun error_sku :: "error \<Rightarrow> string option" where
  "error_sku (ProductNotFound k) = Some k"
| "error_sku (InsufficientStock nm k available wanted) = Some k"
| "error_sku (InsufficientStockAdditional nm k available needed) = Some k"
| "error_sku (InventoryUpdateFailed k) = Some k"
| "error_sku OrderNotFound = None"
| "error_sku IntegrityError = None"

section \<open>Example data\<close>

text \<open>The store of the specification's worked example: ten units of \<^verbatim>\<open>SKU1\<close> at 100.00.\<close>

definition spec_example_db :: db where
  "spec_example_db =
     \<lparr>categories = {},
      products = [''SKU1'' \<mapsto> \<lparr>name = ''Helmet'', category = None, quantity = 10, price = 100\<rparr>],
      last_number = 0, orders = Map.empty, order_items = []\<rparr>"

text \<open>A request body with the given lines and tax rate, and a line of a request body.\<close>

definition order_of :: "item list \<Rightarrow> real option \<Rightarrow> order_data" where
  "order_of its rate =
     \<lparr>customerName = ''Asha'', mobileNumber = ''9000000000'', emailAddress = None,
      orderDate = ''2025-09-05'', plannedDeliveryDate = None, paymentMethod = None,
      advanceReceived = None, personalizationRequired = False,
      personalizationDetails = None, items = its, gstRate = rate\<rparr>"

definition line :: "string \<Rightarrow> int \<Rightarrow> real \<Rightarrow> item" where
  "line k q p = \<lparr>sku = k, item_product_name = k, item_quantity = q, item_price = p\<rparr>"

text \<open>The example store after 9998 identifiers have been issued.\<close>

definition near_rollover_db :: db where
  "near_rollover_db = spec_example_db\<lparr>last_number := 9998\<rparr>"

text \<open>A store with three products: ten units of \<^verbatim>\<open>A\<close>, none of \<^verbatim>\<open>B\<close>, one of \<^verbatim>\<open>C\<close>.\<close>

definition abc_db :: db where
  "abc_db =
     \<lparr>categories = {},
      products =
        [''A'' \<mapsto> \<lparr>name = ''A'', category = None, quantity = 10, price = 1\<rparr>,
         ''B'' \<mapsto> \<lparr>name = ''B'', category = None, quantity = 0, price = 1\<rparr>,
         ''C'' \<mapsto> \<lparr>name = ''C'', category = None, quantity = 1, price = 1\<rparr>],
      last_number = 0, orders = Map.empty, order_items = []\<rparr>"

text \<open>
  The three-product store after order \<^verbatim>\<open>ORD0001\<close> for three units of \<^verbatim>\<open>A\<close> and two of
  \<^verbatim>\<open>B\<close> has been placed at a tax rate of 18%.
\<close>

definition abc_order_db :: db where
  "abc_order_db =
     abc_db\<lparr>last_number := 1,
       orders := [''ORD0001'' \<mapsto>
         header_row (order_of [line ''A'' 3 1, line ''B'' 2 1] (Some 0.18)) None (5 + 5 * 0.18) 0.18],
       order_items := [item_row ''ORD0001'' (line ''A'' 3 1), item_row ''ORD0001'' (line ''B'' 2 1)]\<rparr>"

text \<open>A store with one category and one product that refers to it.\<close>

definition category_example_db :: db where
  "category_example_db =
     \<lparr>categories = {''Helmets''},
      products =
        [''SKU1'' \<mapsto> \<lparr>name = ''Helmet'', category = Some ''Helmets'', quantity = 10, price = 100\<rparr>],
      last_number = 0, orders = Map.empty, order_items = []\<rparr>"

section \<open>Invariants of the store\<close>

text \<open>The invariant of the product table: no quantity is negative.\<close>

definition stock_non_negative :: "db \<Rightarrow> bool" where
  "stock_non_negative s \<longleftrightarrow> (\<forall>k row. products s k = Some row \<longrightarrow> 0 \<le> quantity row)"

text \<open>
  An identifier is issued when it renders a counter value up to the current one; a
  database is consistent when every order and every item row carries an issued
  identifier.
\<close>

definition issued :: "db \<Rightarrow> string \<Rightarrow> bool" where
  "issued s oid \<longleftrightarrow> (\<exists>n\<le>last_number s. oid = new_order_id_of n)"

definition consistent :: "db \<Rightarrow> bool" where
  "consistent s \<longleftrightarrow>
     (\<forall>oid. orders s oid \<noteq> None \<longrightarrow> issued s oid) \<and>
     (\<forall>r\<in>set (order_items s). issued s (order_id r))"

text \<open>The database \<^verbatim>\<open>init_db\<close> creates: empty tables and the counter at 0.\<close>

definition init_db :: db where
  "init_db =
     \<lparr>categories = {}, products = Map.empty, last_number = 0, orders = Map.empty,
      order_items = []\<rparr>"

section \<open>Formatting: lemmas\<close>

lemma digit_value_digit_char: "d < 10 \<Longrightarrow> digit_value (digit_char d) = d"
proof -
  assume "d < 10"
  then have "d \<in> {0,1,2,3,4,5,6,7,8,9}" by auto
  then show ?thesis
    by (auto simp: digit_value_def digit_char_def)
qed

lemma digit_char_not_minus: "d < 10 \<Longrightarrow> digit_char d \<noteq> CHR ''-''"
proof -
  assume "d < 10"
  then have "d \<in> {0,1,2,3,4,5,6,7,8,9}" by auto
  then show ?thesis
    by (auto simp: digit_char_def)
qed

lemma decimal_value_snoc: "decimal_value (ds @ [c]) = 10 * decimal_value ds + digit_value c"
  by (simp add: decimal_value_def)

lemma decimal_value_str_nat: "decimal_value (str_nat n) = n"
proof (induction n rule: str_nat.induct)
  case (1 n)
  show ?case
  proof (cases "n < 10")
    case True
    then show ?thesis
      by (simp add: str_nat.simps [of n] decimal_value_def digit_value_digit_char)
  next
    case False
    with 1 have "decimal_value (str_nat (n div 10)) = n div 10" by simp
    with False show ?thesis
      by (simp add: str_nat.simps [of n] decimal_value_snoc digit_value_digit_char)
  qed
qed

lemma decimal_value_zeros: "decimal_value (replicate k CHR ''0'' @ ds) = decimal_value ds"
proof -
  have "foldl (\<lambda>acc c. 10 * acc + digit_value c) 0 (replicate k CHR ''0'') = 0"
    by (induction k) (simp_all add: digit_value_def)
  then show ?thesis by (simp add: decimal_value_def)
qed

lemma decimal_value_zero_pad: "decimal_value (zero_pad w (str_nat n)) = n"
  by (simp add: zero_pad_def decimal_value_zeros decimal_value_str_nat)

lemma str_nat_not_Nil: "str_nat n \<noteq> []"
  by (subst str_nat.simps) simp

lemma hd_str_nat_not_minus: "hd (str_nat n) \<noteq> CHR ''-''"
proof (induction n rule: str_nat.induct)
  case (1 n)
  show ?case
  proof (cases "n < 10")
    case True
    then show ?thesis by (simp add: str_nat.simps [of n] digit_char_not_minus)
  next
    case False
    with 1 show ?thesis
      by (simp add: str_nat.simps [of n] str_nat_not_Nil)
  qed
qed

lemma hd_zero_pad_not_minus: "hd (zero_pad w (str_nat n)) \<noteq> CHR ''-''"
  by (cases "w - length (str_nat n)")
     (simp_all add: zero_pad_def hd_str_nat_not_minus hd_append str_nat_not_Nil)

lemma zero_pad_not_Nil: "zero_pad w (str_nat n) \<noteq> []"
  by (simp add: zero_pad_def str_nat_not_Nil)

lemma int_of_str_format_04d: "int_of_str (format_04d i) = i"
proof (cases "i < 0")
  case True
  then show ?thesis
    by (simp add: format_04d_def int_of_str_def decimal_value_zero_pad)
next
  case False
  obtain c cs where eq: "zero_pad 4 (str_nat (nat i)) = c # cs"
    using zero_pad_not_Nil [of 4 "nat i"] by (cases "zero_pad 4 (str_nat (nat i))") auto
  have "c \<noteq> CHR ''-''"
    using hd_zero_pad_not_minus [of 4 "nat i"] eq by simp
  moreover have "decimal_value (c # cs) = nat i"
    using decimal_value_zero_pad [of 4 "nat i"] eq by simp
  ultimately show ?thesis
    using False eq by (simp add: format_04d_def int_of_str_def)
qed

lemma format_04d_inj: "format_04d i = format_04d j \<Longrightarrow> i = j"
  by (metis int_of_str_format_04d)

lemma new_order_id_of_inj: "new_order_id_of i = new_order_id_of j \<Longrightarrow> i = j"
  by (simp add: new_order_id_of_def format_04d_inj)

lemma length_str_nat_ge: "10 ^ k \<le> n \<Longrightarrow> k < length (str_nat n)"
proof (induction k arbitrary: n)
  case 0
  then show ?case using str_nat_not_Nil [of n] by (cases "str_nat n") auto
next
  case (Suc k)
  then have "10 ^ k \<le> n div 10" by simp
  then have "k < length (str_nat (n div 10))" by (rule Suc.IH)
  moreover have "\<not> n < 10"
  proof -
    have "(10::nat) * 1 \<le> 10 * 10 ^ k" by (rule mult_le_mono2) simp
    also have "\<dots> \<le> n" using Suc.prems by simp
    finally show ?thesis by simp
  qed
  ultimately show ?case by (simp add: str_nat.simps [of n])
qed

lemma format_04d_full: "9999 < i \<Longrightarrow> format_04d i = str_nat (nat i)"
proof -
  assume "9999 < i"
  then have "10 ^ 4 \<le> nat i" by simp
  then have "4 < length (str_nat (nat i))" by (rule length_str_nat_ge)
  with \<open>9999 < i\<close> show ?thesis by (simp add: format_04d_def zero_pad_def)
qed

lemma length_str_nat_le: "n < 10 ^ k \<Longrightarrow> 0 < k \<Longrightarrow> length (str_nat n) \<le> k"
proof (induction k arbitrary: n)
  case 0
  then show ?case by simp
next
  case (Suc k)
  show ?case
  proof (cases "n < 10")
    case True
    then show ?thesis by (simp add: str_nat.simps [of n])
  next
    case False
    then have k: "0 < k" using Suc.prems by (cases k) auto
    from Suc.prems have "n div 10 < 10 ^ k" by (simp add: less_mult_imp_div_less mult.commute)
    then have "length (str_nat (n div 10)) \<le> k" using k by (rule Suc.IH)
    with False show ?thesis by (simp add: str_nat.simps [of n])
  qed
qed

lemma length_format_04d: "0 \<le> i \<Longrightarrow> i \<le> 9999 \<Longrightarrow> length (format_04d i) = 4"
proof -
  assume "0 \<le> i" "i \<le> 9999"
  then have "nat i < 10 ^ 4" by simp
  then have "length (str_nat (nat i)) \<le> 4" by (rule length_str_nat_le) simp
  with \<open>0 \<le> i\<close> show ?thesis by (simp add: format_04d_def zero_pad_def)
qed

section \<open>Stock movements: lemmas\<close>

lemma consume_zero: "consume (\<lambda>k. 0) m = m"
  by (rule ext) (simp add: consume_def option.map_ident)

lemma consume_consume: "consume f (consume g m) = consume (\<lambda>k. g k + f k) m"
  by (rule ext) (simp add: consume_def option.map_comp comp_def diff_diff_eq)

lemma subtract_quantity_consume:
  "snd (subtract_quantity n k s) =
     s\<lparr>products := consume (\<lambda>k'. if k' = k then n else 0) (products s)\<rparr>"
proof (cases "products s k")
  case None
  then have "consume (\<lambda>k'. if k' = k then n else 0) (products s) = products s"
    by (intro ext) (auto simp: consume_def option.map_ident)
  with None show ?thesis by (simp add: subtract_quantity_def)
next
  case (Some row)
  then have "consume (\<lambda>k'. if k' = k then n else 0) (products s) =
      (products s)(k \<mapsto> row\<lparr>quantity := quantity row - n\<rparr>)"
    by (intro ext) (auto simp: consume_def option.map_ident)
  with Some show ?thesis by (simp add: subtract_quantity_def)
qed

lemma fst_subtract_quantity:
  "fst (subtract_quantity n k s) = (if products s k = None then 0 else 1)"
  by (simp add: subtract_quantity_def split: option.splits)

lemma requested_Cons:
  "requested (it # its) k = (if sku it = k then item_quantity it else 0) + requested its k"
  by (simp add: requested_def)

lemma validate_stock_None_iff:
  "validate_stock s its = None \<longleftrightarrow> (\<forall>it\<in>set its. \<not> insufficient s it)"
  by (induction its) (auto simp: insufficient_def split: option.splits)

lemma validate_stock_first:
  "find (insufficient s) its = Some bad \<Longrightarrow>
     \<exists>e. validate_stock s its = Some e \<and> error_sku e = Some (sku bad)"
  by (induction its) (auto simp: insufficient_def split: option.splits if_splits)

lemma subtract_stock_consume:
  "\<forall>it\<in>set its. products s (sku it) \<noteq> None \<Longrightarrow>
     subtract_stock its s = Inr (s\<lparr>products := consume (requested its) (products s)\<rparr>)"
proof (induction its arbitrary: s)
  case Nil
  have "requested [] = (\<lambda>k. 0)" by (rule ext) (simp add: requested_def)
  then show ?case by (simp add: consume_zero)
next
  case (Cons it its)
  obtain rowcount s' where eq: "subtract_quantity (item_quantity it) (sku it) s = (rowcount, s')"
    by (cases "subtract_quantity (item_quantity it) (sku it) s")
  have s': "s' = s\<lparr>products := consume (\<lambda>k'. if k' = sku it then item_quantity it else 0) (products s)\<rparr>"
    using subtract_quantity_consume [of "item_quantity it" "sku it" s] eq by simp
  have rowcount: "rowcount = 1"
    using fst_subtract_quantity [of "item_quantity it" "sku it" s] eq Cons.prems by simp
  have "\<forall>x\<in>set its. products s' (sku x) \<noteq> None"
    using Cons.prems by (simp add: s' consume_def)
  then have "subtract_stock its s' = Inr (s'\<lparr>products := consume (requested its) (products s')\<rparr>)"
    by (rule Cons.IH)
  moreover have "(\<lambda>k. (if k = sku it then item_quantity it else 0) + requested its k) = requested (it # its)"
    by (rule ext) (auto simp: requested_Cons)
  ultimately show ?case
    using eq rowcount by (simp add: s' consume_consume)
qed

section \<open>Reconciliation of an edited order: lemmas\<close>

lemma get0_empty: "get0 Map.empty k = 0"
  by (simp add: get0_def)

lemma get0_aggregate:
  "get0 (aggregate rows d) k = get0 d k + sum_list (map snd (filter (\<lambda>r. fst r = k) rows))"
  by (induction rows arbitrary: d) (auto simp: get0_def)

lemma get0_old_items_of: "get0 (old_items_of oid s) k = reserved oid s k"
proof -
  have a: "sum_list (map snd (filter (\<lambda>r. fst r = k) (map (\<lambda>r. (product_sku r, row_quantity r)) rows))) =
      sum_list (map row_quantity (filter (\<lambda>r. product_sku r = k) rows))"
    for rows :: "order_item_row list"
    by (induction rows) auto
  have b: "filter (\<lambda>r. order_id r = oid \<and> product_sku r = k) (order_items s) =
      filter (\<lambda>r. product_sku r = k) (filter (\<lambda>r. order_id r = oid) (order_items s))"
    by (simp add: conj_commute)
  show ?thesis
    unfolding old_items_of_def reserved_def get0_aggregate get0_empty b
    using a [of "filter (\<lambda>r. order_id r = oid) (order_items s)"] by simp
qed

lemma get0_new_map_of: "get0 (new_map_of its) k = requested its k"
proof -
  have "sum_list (map snd (filter (\<lambda>r. fst r = k) (map (\<lambda>it. (sku it, item_quantity it)) its))) =
      sum_list (map item_quantity (filter (\<lambda>it. sku it = k) its))"
    by (induction its) auto
  then show ?thesis
    by (simp add: new_map_of_def requested_def get0_aggregate get0_empty)
qed

lemma deltas_of_eq:
  "deltas_of ks (old_items_of oid s) (new_map_of its) =
     map (\<lambda>k. (k, requested its k - reserved oid s k)) ks"
  by (simp add: deltas_of_def get0_old_items_of get0_new_map_of)

lemma validate_deltas_None_iff:
  "validate_deltas s ds = None \<longleftrightarrow>
     (\<forall>(k, d)\<in>set ds. 0 < d \<longrightarrow> (\<exists>row. products s k = Some row \<and> d \<le> quantity row))"
  by (induction ds) (auto split: option.splits if_splits)

lemma apply_deltas_consume:
  "apply_deltas ds s =
     s\<lparr>products := consume (\<lambda>k. sum_list (map snd (filter (\<lambda>p. fst p = k) ds))) (products s)\<rparr>"
proof (induction ds arbitrary: s)
  case Nil
  then show ?case by (simp add: consume_zero)
next
  case (Cons p ds)
  obtain k d where p: "p = (k, d)" by (cases p)
  have eq: "(\<lambda>k'. (if k' = k then d else 0) + sum_list (map snd (filter (\<lambda>p. fst p = k') ds))) =
      (\<lambda>k'. sum_list (map snd (filter (\<lambda>p. fst p = k') ((k, d) # ds))))"
    by (rule ext) auto
  show ?case
  proof (cases "d = 0")
    case True
    with eq have "(\<lambda>k'. sum_list (map snd (filter (\<lambda>p. fst p = k') ((k, d) # ds)))) =
        (\<lambda>k'. sum_list (map snd (filter (\<lambda>p. fst p = k') ds)))"
      by (auto simp: fun_eq_iff)
    with True show ?thesis by (simp add: p Cons.IH)
  next
    case False
    then show ?thesis
      by (simp add: p Cons.IH subtract_quantity_consume consume_consume eq del: filter.simps)
  qed
qed

lemma sum_list_tabulated:
  "distinct ks \<Longrightarrow>
     sum_list (map snd (filter (\<lambda>p. fst p = k) (map (\<lambda>k. (k, f k)) ks))) =
     (if k \<in> set ks then f k else (0::int))"
  by (induction ks) auto

lemma requested_outside: "k \<notin> set (map sku its) \<Longrightarrow> requested its k = 0"
proof -
  assume "k \<notin> set (map sku its)"
  then have "filter (\<lambda>it. sku it = k) its = []" by (auto simp: filter_empty_conv)
  then show ?thesis by (simp add: requested_def)
qed

lemma reserved_outside:
  "k \<notin> set (map product_sku (filter (\<lambda>r. order_id r = oid) (order_items s))) \<Longrightarrow>
     reserved oid s k = 0"
proof -
  assume "k \<notin> set (map product_sku (filter (\<lambda>r. order_id r = oid) (order_items s)))"
  then have "filter (\<lambda>r. order_id r = oid \<and> product_sku r = k) (order_items s) = []"
    by (auto simp: filter_empty_conv)
  then show ?thesis by (simp add: reserved_def)
qed

lemma apply_deltas_of:
  assumes "iteration_order ks oid its s0"
  shows "apply_deltas (deltas_of ks (old_items_of oid s0) (new_map_of its)) s =
     s\<lparr>products := consume (\<lambda>k. requested its k - reserved oid s0 k) (products s)\<rparr>"
proof -
  have "sum_list (map snd (filter (\<lambda>p. fst p = k)
          (map (\<lambda>k. (k, requested its k - reserved oid s0 k)) ks))) =
        requested its k - reserved oid s0 k" for k
  proof (cases "k \<in> set ks")
    case True
    with assms show ?thesis by (simp add: sum_list_tabulated iteration_order_def)
  next
    case False
    with assms have "requested its k = 0" "reserved oid s0 k = 0"
      by (simp_all add: iteration_order_def requested_outside reserved_outside)
    with False assms show ?thesis by (simp add: sum_list_tabulated iteration_order_def)
  qed
  then show ?thesis by (simp add: apply_deltas_consume deltas_of_eq)
qed

section \<open>Returning stock: lemmas\<close>

lemma add_quantity_consume:
  "snd (add_quantity n k s) =
     s\<lparr>products := consume (\<lambda>k'. if k' = k then - n else 0) (products s)\<rparr>"
proof (cases "products s k")
  case None
  then have "consume (\<lambda>k'. if k' = k then - n else 0) (products s) = products s"
    by (intro ext) (auto simp: consume_def option.map_ident)
  with None show ?thesis by (simp add: add_quantity_def)
next
  case (Some row)
  then have "consume (\<lambda>k'. if k' = k then - n else 0) (products s) =
      (products s)(k \<mapsto> row\<lparr>quantity := quantity row + n\<rparr>)"
    by (intro ext) (auto simp: consume_def option.map_ident)
  with Some show ?thesis by (simp add: add_quantity_def)
qed

lemma return_stock_consume:
  "return_stock rows s =
     s\<lparr>products :=
         consume (\<lambda>k. - sum_list (map row_quantity (filter (\<lambda>r. product_sku r = k) rows)))
           (products s)\<rparr>"
proof (induction rows arbitrary: s)
  case Nil
  then show ?case by (simp add: consume_zero)
next
  case (Cons r rows)
  have "(\<lambda>k. (if k = product_sku r then - row_quantity r else 0) +
          - sum_list (map row_quantity (filter (\<lambda>r. product_sku r = k) rows))) =
        (\<lambda>k. - sum_list (map row_quantity (filter (\<lambda>x. product_sku x = k) (r # rows))))"
    by (rule ext) auto
  then show ?case
    by (simp add: Cons.IH add_quantity_consume consume_consume del: filter.simps)
qed

section \<open>Creating an order: lemmas and properties\<close>

lemma new_order_id_of_1: "new_order_id_of 1 = ''ORD0001''"
  by (simp add: new_order_id_of_def format_04d_def zero_pad_def str_nat.simps digit_char_def
      numeral_3_eq_3)

lemma not_insufficient_iff:
  "\<not> insufficient s it \<longleftrightarrow>
     (\<exists>row. products s (sku it) = Some row \<and> item_quantity it \<le> quantity row)"
  by (auto simp: insufficient_def split: option.splits)

lemma create_order_body_success:
  assumes ok: "\<forall>it\<in>set (items od). \<not> insufficient s it"
    and fresh: "orders s (new_order_id_of (last_number s + 1)) = None"
  shows "create_order_body od s =
           Inr (new_order_id_of (last_number s + 1),
                s\<lparr>last_number := last_number s + 1,
                  orders := (orders s)(new_order_id_of (last_number s + 1) \<mapsto>
                    header_row od (paymentMethod od)
                      (subtotal_of (items od) + subtotal_of (items od) *
                         (case gstRate od of None \<Rightarrow> GST_RATE | Some r \<Rightarrow> r))
                      (case gstRate od of None \<Rightarrow> GST_RATE | Some r \<Rightarrow> r)),
                  order_items := order_items s @
                    map (item_row (new_order_id_of (last_number s + 1))) (items od),
                  products := consume (requested (items od)) (products s)\<rparr>)"
proof -
  have v: "validate_stock s (items od) = None"
    using ok by (simp add: validate_stock_None_iff)
  have present: "\<forall>it\<in>set (items od). products s' (sku it) \<noteq> None" if "products s' = products s" for s' :: db
    using ok that by (auto simp: insufficient_def split: option.splits)
  show ?thesis
    unfolding create_order_body_def Let_def
    by (simp add: v fresh subtract_stock_consume present)
qed

lemma create_order_body_Inr:
  assumes "create_order_body od s = Inr r"
  shows "(\<forall>it\<in>set (items od). \<not> insufficient s it) \<and>
         orders s (new_order_id_of (last_number s + 1)) = None"
proof -
  have "validate_stock s (items od) = None"
    using assms unfolding create_order_body_def Let_def by (auto split: option.splits)
  moreover have "orders s (new_order_id_of (last_number s + 1)) = None"
    using assms unfolding create_order_body_def Let_def by (auto split: option.splits if_splits)
  ultimately show ?thesis by (simp add: validate_stock_None_iff)
qed

lemma sublist_sku_message: "error_sku e = Some k \<Longrightarrow> sublist k (message e)"
proof (cases e)
  case (ProductNotFound x)
  assume "error_sku e = Some k"
  with ProductNotFound have "message e = (''Product with SKU '' @ [CHR 0x27]) @ k @ ([CHR 0x27] @ '' not found.'')"
    by simp
  then show ?thesis unfolding sublist_def by blast
next
  case (InsufficientStock nm x a w)
  assume "error_sku e = Some k"
  with InsufficientStock have "message e = (''Insufficient stock for '' @ nm @ '' (SKU: '') @ k @
      (''). Available: '' @ str_int a @ '', requested: '' @ str_int w @ ''.'')"
    by simp
  then show ?thesis unfolding sublist_def by blast
next
  case (InsufficientStockAdditional nm x a w)
  assume "error_sku e = Some k"
  with InsufficientStockAdditional have "message e = (''Insufficient stock for '' @ nm @ '' (SKU: '') @ k @
      (''). Available: '' @ str_int a @ '', additional needed: '' @ str_int w @ ''.'')"
    by simp
  then show ?thesis unfolding sublist_def by blast
next
  case (InventoryUpdateFailed x)
  assume "error_sku e = Some k"
  with InventoryUpdateFailed have "message e = (''Failed to update inventory for SKU '' @ [CHR 0x27]) @ k @ ([CHR 0x27] @ ''.'')"
    by simp
  then show ?thesis unfolding sublist_def by blast
qed simp_all

text \<open>
  Claim C2. When some line of a create request names an unknown sku or asks for more
  than the stock of its product, \<^verbatim>\<open>handle_create_order\<close> answers with a failure and
  returns the database it was given: no product row changes, no order row and no item
  row appears, and the sequence counter keeps its value. The failure is the one raised
  for the first such line in the order of the request, and both the exception and its
  message text name that line's sku.
\<close>

theorem create_rejected_leaves_store_unchanged:
  assumes "it \<in> set (items od)" and "insufficient s it"
  shows "\<exists>bad e. find (insufficient s) (items od) = Some bad \<and>
           handle_create_order od s = (Failure e, s) \<and>
           error_sku e = Some (sku bad) \<and> sublist (sku bad) (message e)"
proof -
  from assms obtain bad where bad: "find (insufficient s) (items od) = Some bad"
    by (cases "find (insufficient s) (items od)") (auto simp: find_None_iff)
  then obtain e where e: "validate_stock s (items od) = Some e" "error_sku e = Some (sku bad)"
    using validate_stock_first by blast
  then have "create_order_body od s = Inl e"
    by (simp add: create_order_body_def)
  then have "handle_create_order od s = (Failure e, s)"
    by (simp add: handle_create_order_def)
  with bad e sublist_sku_message [OF e(2)] show ?thesis by blast
qed



text \<open>Eleven units asked of the ten in stock: the failure names \<^verbatim>\<open>SKU1\<close>, nothing changes.\<close>

theorem create_rejected_leaves_store_unchanged_witness:
  "line ''SKU1'' 11 100 \<in> set (items (order_of [line ''SKU1'' 11 100] None)) \<and>
   insufficient spec_example_db (line ''SKU1'' 11 100) \<and>
   handle_create_order (order_of [line ''SKU1'' 11 100] None) spec_example_db =
     (Failure (InsufficientStock ''Helmet'' ''SKU1'' 10 11), spec_example_db) \<and>
   sublist ''SKU1'' (message (InsufficientStock ''Helmet'' ''SKU1'' 10 11))"
proof -
  let ?od = "order_of [line ''SKU1'' 11 100] None"
  have h1: "line ''SKU1'' 11 100 \<in> set (items ?od)"
    by (simp add: order_of_def)
  have h2: "insufficient spec_example_db (line ''SKU1'' 11 100)"
    by (simp add: insufficient_def spec_example_db_def line_def)
  from create_rejected_leaves_store_unchanged [OF h1 h2] obtain bad e where
    "find (insufficient spec_example_db) (items ?od) = Some bad"
    "handle_create_order ?od spec_example_db = (Failure e, spec_example_db)"
    "error_sku e = Some (sku bad)" "sublist (sku bad) (message e)"
    by blast
  moreover have "handle_create_order ?od spec_example_db =
      (Failure (InsufficientStock ''Helmet'' ''SKU1'' 10 11), spec_example_db)"
    by (simp add: handle_create_order_def create_order_body_def order_of_def line_def
        spec_example_db_def)
  moreover have "find (insufficient spec_example_db) (items ?od) = Some (line ''SKU1'' 11 100)"
    using h2 by (simp add: order_of_def)
  ultimately have "sublist ''SKU1'' (message (InsufficientStock ''Helmet'' ''SKU1'' 10 11))"
    by (simp add: line_def)
  with h1 h2 \<open>handle_create_order ?od spec_example_db =
      (Failure (InsufficientStock ''Helmet'' ''SKU1'' 10 11), spec_example_db)\<close>
  show ?thesis by blast
qed

text \<open>
  Claim C1. Starting from a store in which every product has a non-negative quantity,
  the order handlers are meant to leave every quantity non-negative, also for a request
  that lists one sku in several lines. \<^verbatim>\<open>handle_create_order\<close> does not: its first loop
  compares each line with the stock on its own, its last loop subtracts every line. Two
  lines of six units of \<^verbatim>\<open>SKU1\<close> against ten units in stock both pass, the order is
  created, and the quantity of \<^verbatim>\<open>SKU1\<close> becomes -2.
\<close>

theorem create_repeated_sku_drives_stock_negative:
  "products spec_example_db =
     [''SKU1'' \<mapsto> \<lparr>name = ''Helmet'', category = None, quantity = 10, price = 100\<rparr>] \<and>
   fst (handle_create_order (order_of [line ''SKU1'' 6 100, line ''SKU1'' 6 100] None)
          spec_example_db) = Success ''ORD0001'' \<and>
   map_option quantity
     (products (snd (handle_create_order
        (order_of [line ''SKU1'' 6 100, line ''SKU1'' 6 100] None) spec_example_db)) ''SKU1'') =
     Some (- 2)"
  by (simp add: handle_create_order_def create_order_body_def order_of_def line_def
      spec_example_db_def subtract_quantity_def new_order_id_of_1 Let_def)

lemma handle_create_order_Success:
  assumes "handle_create_order od s = (Success oid, s')"
  shows "oid = new_order_id_of (last_number s + 1) \<and> last_number s' = last_number s + 1"
proof -
  from assms obtain r where r: "create_order_body od s = Inr r"
    by (cases "create_order_body od s") (auto simp: handle_create_order_def)
  from create_order_body_Inr [OF r]
  have "create_order_body od s = Inr (new_order_id_of (last_number s + 1),
                s\<lparr>last_number := last_number s + 1,
                  orders := (orders s)(new_order_id_of (last_number s + 1) \<mapsto>
                    header_row od (paymentMethod od)
                      (subtotal_of (items od) + subtotal_of (items od) *
                         (case gstRate od of None \<Rightarrow> GST_RATE | Some r \<Rightarrow> r))
                      (case gstRate od of None \<Rightarrow> GST_RATE | Some r \<Rightarrow> r)),
                  order_items := order_items s @
                    map (item_row (new_order_id_of (last_number s + 1))) (items od),
                  products := consume (requested (items od)) (products s)\<rparr>)"
    by (intro create_order_body_success) simp_all
  with assms show ?thesis
    by (auto simp: handle_create_order_def)
qed

text \<open>
  Claim C7. A successful create increments the sequence counter by exactly one and
  answers with \<^verbatim>\<open>ORD\<close> followed by the new counter value in the format \<^verbatim>\<open>04d\<close>: for a
  value from 0 to 9999 its decimal digits after as many zeros as make four characters,
  for a larger value all its decimal digits and nothing else. Hence the identifiers of
  two successive successful creates differ, and the number the second one shows is
  greater than the number the first one shows.
\<close>

theorem order_ids_sequence:
  assumes "handle_create_order od s = (Success oid, s1)"
    and "handle_create_order od' s1 = (Success oid', s2)"
  shows "last_number s1 = last_number s + 1 \<and>
         oid = ''ORD'' @ format_04d (last_number s1) \<and>
         last_number s2 = last_number s1 + 1 \<and>
         oid' = ''ORD'' @ format_04d (last_number s2) \<and>
         oid \<noteq> oid' \<and>
         int_of_str (drop 3 oid) < int_of_str (drop 3 oid') \<and>
         (\<forall>n\<in>{last_number s1, last_number s2}.
            (0 \<le> n \<longrightarrow>
               format_04d n = replicate (4 - length (str_nat (nat n))) CHR ''0'' @ str_nat (nat n)) \<and>
            (0 \<le> n \<and> n \<le> 9999 \<longrightarrow> length (format_04d n) = 4) \<and>
            (9999 < n \<longrightarrow> format_04d n = str_nat (nat n)))"
proof -
  from handle_create_order_Success [OF assms(1)]
  have 1: "oid = new_order_id_of (last_number s + 1)" "last_number s1 = last_number s + 1"
    by simp_all
  from handle_create_order_Success [OF assms(2)]
  have 2: "oid' = new_order_id_of (last_number s1 + 1)" "last_number s2 = last_number s1 + 1"
    by simp_all
  have e1: "oid = ''ORD'' @ format_04d (last_number s1)"
    using 1 by (simp add: new_order_id_of_def)
  have e2: "oid' = ''ORD'' @ format_04d (last_number s2)"
    using 2 by (simp add: new_order_id_of_def)
  have neq: "oid \<noteq> oid'"
    using 1 2 new_order_id_of_inj [of "last_number s + 1" "last_number s1 + 1"] by auto
  have lt: "int_of_str (drop 3 oid) < int_of_str (drop 3 oid')"
    using 1 2 by (simp add: new_order_id_of_def int_of_str_format_04d)
  have a: "0 \<le> n \<longrightarrow>
      format_04d n = replicate (4 - length (str_nat (nat n))) CHR ''0'' @ str_nat (nat n)" for n
    by (simp add: format_04d_def zero_pad_def)
  have b: "0 \<le> n \<and> n \<le> 9999 \<longrightarrow> length (format_04d n) = 4" for n
    by (simp add: length_format_04d)
  have c: "9999 < n \<longrightarrow> format_04d n = str_nat (nat n)" for n
    by (simp add: format_04d_full)
  from 1(2) e1 2(2) e2 neq lt a b c show ?thesis by blast
qed

text \<open>The identifiers on both sides of 9999: \<^verbatim>\<open>ORD9999\<close>, then \<^verbatim>\<open>ORD10000\<close>.\<close>

theorem order_ids_sequence_witness:
  "(\<exists>s1 s2.
      handle_create_order (order_of [line ''SKU1'' 4 100] None) near_rollover_db =
        (Success ''ORD9999'', s1) \<and>
      handle_create_order (order_of [line ''SKU1'' 4 100] None) s1 = (Success ''ORD10000'', s2) \<and>
      last_number s1 = 9999 \<and> last_number s2 = 10000) \<and>
   ''ORD9999'' \<noteq> ''ORD10000'' \<and>
   int_of_str (drop 3 ''ORD9999'') < int_of_str (drop 3 ''ORD10000'') \<and>
   length (format_04d 9999) = 4 \<and> format_04d 10000 = str_nat 10000"
proof -
  let ?od = "order_of [line ''SKU1'' 4 100] None"
  let ?s1 = "snd (handle_create_order ?od near_rollover_db)"
  let ?s2 = "snd (handle_create_order ?od ?s1)"
  have id1: "new_order_id_of 9999 = ''ORD9999''"
    by (simp add: new_order_id_of_def format_04d_def zero_pad_def str_nat.simps digit_char_def)
  have id2: "new_order_id_of 10000 = ''ORD10000''"
    by (simp add: new_order_id_of_def format_04d_def zero_pad_def str_nat.simps digit_char_def)
  have h1: "handle_create_order ?od near_rollover_db = (Success ''ORD9999'', ?s1)"
    by (simp add: handle_create_order_def create_order_body_def order_of_def line_def
      near_rollover_db_def spec_example_db_def subtract_quantity_def id1 Let_def)
  have s1: "?s1 = \<lparr>categories = {},
      products = [''SKU1'' \<mapsto> \<lparr>name = ''Helmet'', category = None, quantity = 6, price = 100\<rparr>],
      last_number = 9999,
      orders = [''ORD9999'' \<mapsto> header_row ?od None (400 + 400 * GST_RATE) GST_RATE],
      order_items = [item_row ''ORD9999'' (line ''SKU1'' 4 100)]\<rparr>"
    by (simp add: handle_create_order_def create_order_body_def order_of_def line_def
      near_rollover_db_def spec_example_db_def subtract_quantity_def id1 Let_def subtotal_of_def)
  have h2: "handle_create_order ?od ?s1 = (Success ''ORD10000'', ?s2)"
    unfolding s1
    by (simp add: handle_create_order_def create_order_body_def order_of_def line_def
      subtract_quantity_def id2 Let_def)
  from order_ids_sequence [OF h1 h2] have *: "last_number ?s1 = last_number near_rollover_db + 1"
    "last_number ?s2 = last_number ?s1 + 1" "''ORD9999'' \<noteq> ''ORD10000''"
    "int_of_str (drop 3 ''ORD9999'') < int_of_str (drop 3 ''ORD10000'')"
    "\<forall>n\<in>{last_number ?s1, last_number ?s2}.
            (0 \<le> n \<longrightarrow>
               format_04d n = replicate (4 - length (str_nat (nat n))) CHR ''0'' @ str_nat (nat n)) \<and>
            (0 \<le> n \<and> n \<le> 9999 \<longrightarrow> length (format_04d n) = 4) \<and>
            (9999 < n \<longrightarrow> format_04d n = str_nat (nat n))"
    by blast+
  from *(1,2) have n: "last_number ?s1 = 9999" "last_number ?s2 = 10000"
    by (simp_all add: near_rollover_db_def)
  from *(5) have "0 \<le> (9999::int) \<and> (9999::int) \<le> 9999 \<longrightarrow> length (format_04d 9999) = 4"
    and "(9999::int) < 10000 \<longrightarrow> format_04d 10000 = str_nat (nat 10000)"
    unfolding n by blast+
  then have "length (format_04d 9999) = 4 \<and> format_04d 10000 = str_nat 10000"
    by simp
  with h1 h2 n *(3,4) show ?thesis by blast
qed







section \<open>Updating an order: lemmas and properties\<close>

lemma update_order_body_found:
  assumes "orders s oid = Some old"
  shows "update_order_body ks oid od s =
     (case validate_deltas s (deltas_of ks (old_items_of oid s) (new_map_of (items od))) of
        Some e \<Rightarrow> Inl e
      | None \<Rightarrow>
          Inr (apply_deltas (deltas_of ks (old_items_of oid s) (new_map_of (items od)))
            (s\<lparr>orders := (orders s)(oid \<mapsto>
                 header_row od (case paymentMethod od of Some [] \<Rightarrow> None | pm \<Rightarrow> pm)
                   (subtotal_of (items od) + subtotal_of (items od) *
                      (case gstRate od of None \<Rightarrow> gst_rate old | Some r \<Rightarrow> r))
                   (case gstRate od of None \<Rightarrow> gst_rate old | Some r \<Rightarrow> r)),
               order_items := filter (\<lambda>r. order_id r \<noteq> oid) (order_items s) @
                 map (item_row oid) (items od)\<rparr>)))"
  using assms unfolding update_order_body_def Let_def
  by (simp split: option.splits)

text \<open>
  Claim C6. A successful update of an existing order stores, and computes the new total
  with, the request's tax rate when the request has one and the rate stored on the order
  before the update when it has none; the default rate plays no part.
\<close>

theorem update_order_tax_rate:
  assumes "orders s oid = Some old" and "update_order ks oid od s = (Success r, s')"
  shows "\<exists>row. orders s' oid = Some row \<and>
           gst_rate row = (case gstRate od of None \<Rightarrow> gst_rate old | Some rate \<Rightarrow> rate) \<and>
           total_cost row = subtotal_of (items od) + subtotal_of (items od) * gst_rate row"
proof (cases "validate_deltas s (deltas_of ks (old_items_of oid s) (new_map_of (items od)))")
  case None
  with assms show ?thesis
    by (auto simp: update_order_def update_order_body_found apply_deltas_consume header_row_def)
next
  case (Some e)
  with assms show ?thesis
    by (simp add: update_order_def update_order_body_found)
qed

text \<open>
  Claim C4. For an existing order and any order \<open>ks\<close> in which Python iterates the union
  of the old and the new skus: the deltas \<^verbatim>\<open>update_order\<close> computes are, for each sku of
  the union, the quantity the request asks for in total minus the quantity the stored
  rows of the order hold in total (zero where the sku is absent); the update succeeds
  exactly when every sku with a positive delta is a product holding at least that delta,
  whatever the stock of the other skus; and after a successful update every product
  holds its former quantity minus the delta of its sku.
\<close>

theorem update_order_applies_deltas:
  assumes "orders s oid = Some old" and "iteration_order ks oid (items od) s"
  shows "deltas_of ks (old_items_of oid s) (new_map_of (items od)) =
           map (\<lambda>k. (k, requested (items od) k - reserved oid s k)) ks \<and>
         ((\<exists>s'. update_order ks oid od s = (Success oid, s')) \<longleftrightarrow>
            (\<forall>k\<in>set ks. 0 < requested (items od) k - reserved oid s k \<longrightarrow>
               (\<exists>row. products s k = Some row \<and>
                  requested (items od) k - reserved oid s k \<le> quantity row))) \<and>
         (\<forall>s'. update_order ks oid od s = (Success oid, s') \<longrightarrow>
            (\<forall>k. products s' k =
               map_option
                 (\<lambda>row. row\<lparr>quantity := quantity row - (requested (items od) k - reserved oid s k)\<rparr>)
                 (products s k)))"
proof -
  let ?ds = "deltas_of ks (old_items_of oid s) (new_map_of (items od))"
  have ds: "?ds = map (\<lambda>k. (k, requested (items od) k - reserved oid s k)) ks"
    by (rule deltas_of_eq)
  have v: "validate_deltas s ?ds = None \<longleftrightarrow>
      (\<forall>k\<in>set ks. 0 < requested (items od) k - reserved oid s k \<longrightarrow>
         (\<exists>row. products s k = Some row \<and> requested (items od) k - reserved oid s k \<le> quantity row))"
    unfolding validate_deltas_None_iff ds by auto
  have ok: "(\<exists>s'. update_order ks oid od s = (Success oid, s')) \<longleftrightarrow> validate_deltas s ?ds = None"
    using assms(1) by (auto simp: update_order_def update_order_body_found split: option.splits)
  have post: "products s' k =
      map_option (\<lambda>row. row\<lparr>quantity := quantity row - (requested (items od) k - reserved oid s k)\<rparr>)
        (products s k)"
    if "update_order ks oid od s = (Success oid, s')" for s' k
  proof -
    from that assms(1) have "validate_deltas s ?ds = None"
      by (auto simp: update_order_def update_order_body_found split: option.splits)
    with that assms(1) show ?thesis
      by (auto simp: update_order_def update_order_body_found apply_deltas_of [OF assms(2)] consume_def)
  qed
  show ?thesis
  proof (intro conjI allI impI)
    show "?ds = map (\<lambda>k. (k, requested (items od) k - reserved oid s k)) ks"
      by (rule ds)
    show "(\<exists>s'. update_order ks oid od s = (Success oid, s')) \<longleftrightarrow>
        (\<forall>k\<in>set ks. 0 < requested (items od) k - reserved oid s k \<longrightarrow>
           (\<exists>row. products s k = Some row \<and>
              requested (items od) k - reserved oid s k \<le> quantity row))"
      using ok v by simp
    fix s' k
    assume "update_order ks oid od s = (Success oid, s')"
    then show "products s' k =
      map_option (\<lambda>row. row\<lparr>quantity := quantity row - (requested (items od) k - reserved oid s k)\<rparr>)
        (products s k)"
      by (rule post)
  qed
qed

theorem update_order_applies_deltas_witness:
  "map_option gst_rate (orders abc_order_db ''ORD0001'') = Some 0.18 \<and>
   reserved ''ORD0001'' abc_order_db ''A'' = 3 \<and> reserved ''ORD0001'' abc_order_db ''B'' = 2 \<and>
   reserved ''ORD0001'' abc_order_db ''C'' = 0 \<and>
   deltas_of [''A'', ''B'', ''C''] (old_items_of ''ORD0001'' abc_order_db)
       (new_map_of [line ''A'' 5 1, line ''B'' 0 1, line ''C'' 1 1]) =
     [(''A'', 2), (''B'', - 2), (''C'', 1)] \<and>
   (\<exists>s'. update_order [''A'', ''B'', ''C''] ''ORD0001''
            (order_of [line ''A'' 5 1, line ''B'' 0 1, line ''C'' 1 1] None) abc_order_db =
          (Success ''ORD0001'', s') \<and>
      map_option quantity (products abc_order_db ''A'') = Some 10 \<and>
      map_option quantity (products s' ''A'') = Some 8 \<and>
      map_option quantity (products abc_order_db ''B'') = Some 0 \<and>
      map_option quantity (products s' ''B'') = Some 2 \<and>
      map_option quantity (products abc_order_db ''C'') = Some 1 \<and>
      map_option quantity (products s' ''C'') = Some 0)"
proof -
  let ?its = "[line ''A'' 5 1, line ''B'' 0 1, line ''C'' 1 1]"
  let ?od = "order_of ?its None"
  let ?old = "header_row (order_of [line ''A'' 3 1, line ''B'' 2 1] (Some 0.18)) None (5 + 5 * 0.18) 0.18"
  have h1: "orders abc_order_db ''ORD0001'' = Some ?old"
    by (simp add: abc_order_db_def)
  have h2: "iteration_order [''A'', ''B'', ''C''] ''ORD0001'' (items ?od) abc_order_db"
    by (auto simp: iteration_order_def abc_order_db_def order_of_def line_def item_row_def)
  have res: "reserved ''ORD0001'' abc_order_db ''A'' = 3" "reserved ''ORD0001'' abc_order_db ''B'' = 2"
    "reserved ''ORD0001'' abc_order_db ''C'' = 0"
    by (simp_all add: reserved_def abc_order_db_def item_row_def line_def)
  have io: "items ?od = ?its" by (simp add: order_of_def)
  have req: "requested ?its ''A'' = 5" "requested ?its ''B'' = 0" "requested ?its ''C'' = 1"
    by (simp_all add: requested_def line_def)
  have stock: "map_option quantity (products abc_order_db ''A'') = Some 10"
    "map_option quantity (products abc_order_db ''B'') = Some 0"
    "map_option quantity (products abc_order_db ''C'') = Some 1"
    by (simp_all add: abc_order_db_def abc_db_def)
  note inst = update_order_applies_deltas [OF h1 h2, unfolded io]
  from inst [THEN conjunct1]
  have d: "deltas_of [''A'', ''B'', ''C''] (old_items_of ''ORD0001'' abc_order_db)
       (new_map_of ?its) = [(''A'', 2), (''B'', - 2), (''C'', 1)]"
    by (simp add: res req)
  have "\<forall>k\<in>set [''A'', ''B'', ''C'']. 0 < requested ?its k - reserved ''ORD0001'' abc_order_db k \<longrightarrow>
               (\<exists>row. products abc_order_db k = Some row \<and>
                  requested ?its k - reserved ''ORD0001'' abc_order_db k \<le> quantity row)"
    by (simp add: res req) (simp add: abc_order_db_def abc_db_def)
  with inst [THEN conjunct2, THEN conjunct1]
  obtain s' where s': "update_order [''A'', ''B'', ''C''] ''ORD0001'' ?od abc_order_db = (Success ''ORD0001'', s')"
    by blast
  with inst [THEN conjunct2, THEN conjunct2] have "\<forall>k. products s' k =
               map_option
                 (\<lambda>row. row\<lparr>quantity := quantity row - (requested ?its k - reserved ''ORD0001'' abc_order_db k)\<rparr>)
                 (products abc_order_db k)"
    by blast
  then have "map_option quantity (products s' ''A'') = Some 8"
    "map_option quantity (products s' ''B'') = Some 2"
    "map_option quantity (products s' ''C'') = Some 0"
    by (simp_all add: res req) (simp_all add: abc_order_db_def abc_db_def)
  with s' stock d res h1 show ?thesis
    by (auto simp: header_row_def)
qed

theorem update_order_tax_rate_witness:
  "map_option gst_rate (orders abc_order_db ''ORD0001'') = Some 0.18 \<and> GST_RATE = 0.05 \<and>
   (\<exists>s' row. update_order [''A'', ''B'', ''C''] ''ORD0001''
            (order_of [line ''A'' 5 1, line ''B'' 0 1, line ''C'' 1 1] None) abc_order_db =
          (Success ''ORD0001'', s') \<and>
      orders s' ''ORD0001'' = Some row \<and> gst_rate row = 0.18 \<and> total_cost row = 7.08)"
proof -
  let ?its = "[line ''A'' 5 1, line ''B'' 0 1, line ''C'' 1 1]"
  let ?od = "order_of ?its None"
  let ?old = "header_row (order_of [line ''A'' 3 1, line ''B'' 2 1] (Some 0.18)) None (5 + 5 * 0.18) 0.18"
  let ?s' = "snd (update_order [''A'', ''B'', ''C''] ''ORD0001'' ?od abc_order_db)"
  have h1: "orders abc_order_db ''ORD0001'' = Some ?old"
    by (simp add: abc_order_db_def)
  have "fst (update_order [''A'', ''B'', ''C''] ''ORD0001'' ?od abc_order_db) = Success ''ORD0001''"
    by (simp add: update_order_def update_order_body_found [OF h1] deltas_of_eq reserved_def
        requested_def order_of_def line_def)
       (simp add: abc_order_db_def abc_db_def item_row_def line_def)
  then have h2: "update_order [''A'', ''B'', ''C''] ''ORD0001'' ?od abc_order_db = (Success ''ORD0001'', ?s')"
    by (simp add: prod_eq_iff)
  from update_order_tax_rate [OF h1 h2] obtain row where
    "orders ?s' ''ORD0001'' = Some row"
    "gst_rate row = (case gstRate ?od of None \<Rightarrow> gst_rate ?old | Some rate \<Rightarrow> rate)"
    "total_cost row = subtotal_of (items ?od) + subtotal_of (items ?od) * gst_rate row"
    by blast
  then have "orders ?s' ''ORD0001'' = Some row \<and> gst_rate row = 0.18 \<and> total_cost row = 7.08"
    by (simp add: order_of_def header_row_def subtotal_of_def line_def)
  with h1 h2 show ?thesis
    by (auto simp: header_row_def GST_RATE_def)
qed

section \<open>Deleting an order: lemmas and properties\<close>

lemma return_stock_order:
  "return_stock (filter (\<lambda>r. order_id r = oid) (order_items s)) s =
     s\<lparr>products := consume (\<lambda>k. - reserved oid s k) (products s)\<rparr>"
proof -
  have "filter (\<lambda>r. product_sku r = k) (filter (\<lambda>r. order_id r = oid) (order_items s)) =
      filter (\<lambda>r. order_id r = oid \<and> product_sku r = k) (order_items s)" for k
    by (simp add: conj_commute)
  then show ?thesis
    by (simp add: return_stock_consume reserved_def)
qed

lemma reserved_none:
  "filter (\<lambda>r. order_id r = oid) (order_items s) = [] \<Longrightarrow> reserved oid s k = 0"
proof -
  assume "filter (\<lambda>r. order_id r = oid) (order_items s) = []"
  then have "filter (\<lambda>r. order_id r = oid \<and> product_sku r = k) (order_items s) = []"
    by (auto simp: filter_empty_conv)
  then show ?thesis by (simp add: reserved_def)
qed

lemma delete_order_found:
  assumes "orders s oid = Some old"
  shows "delete_order oid s =
     (Success (),
      s\<lparr>products := consume (\<lambda>k. - reserved oid s k) (products s),
        order_items := filter (\<lambda>r. order_id r \<noteq> oid) (order_items s),
        orders := (orders s)(oid := None)\<rparr>)"
proof (cases "filter (\<lambda>r. order_id r = oid) (order_items s) = []")
  case True
  then have "(\<lambda>k. - reserved oid s k) = (\<lambda>k. 0)"
    by (simp add: reserved_none)
  moreover from True have "filter (\<lambda>r. order_id r \<noteq> oid) (order_items s) = order_items s"
    by (auto simp: filter_empty_conv filter_id_conv)
  ultimately show ?thesis
    using True assms by (simp add: delete_order_def delete_order_row_def consume_zero)
next
  case False
  then show ?thesis
    using assms
    by (simp add: delete_order_def delete_order_row_def Let_def return_stock_order)
qed

lemma delete_order_absent:
  assumes "orders s oid = None" and "filter (\<lambda>r. order_id r = oid) (order_items s) = []"
  shows "delete_order oid s = (NotFound, s)"
  using assms by (simp add: delete_order_def delete_order_row_def)

text \<open>
  Claim C5. For an order that exists, the first \<^verbatim>\<open>delete_order\<close> succeeds and returns to
  every product the quantity the order's rows held for its sku; the order and its rows
  are gone. A second \<^verbatim>\<open>delete_order\<close> with the same identifier answers with status 404
  and leaves the database, and so the stock, as the first call left it.
\<close>

theorem delete_order_twice:
  assumes "orders s oid = Some old"
  shows "\<exists>s1. delete_order oid s = (Success (), s1) \<and>
           delete_order oid s1 = (NotFound, s1) \<and>
           orders s1 oid = None \<and>
           filter (\<lambda>r. order_id r = oid) (order_items s1) = [] \<and>
           (\<forall>k. products s1 k =
              map_option (\<lambda>row. row\<lparr>quantity := quantity row + reserved oid s k\<rparr>) (products s k))"
proof -
  let ?s1 = "s\<lparr>products := consume (\<lambda>k. - reserved oid s k) (products s),
        order_items := filter (\<lambda>r. order_id r \<noteq> oid) (order_items s),
        orders := (orders s)(oid := None)\<rparr>"
  have 1: "delete_order oid s = (Success (), ?s1)"
    using assms by (rule delete_order_found)
  have gone: "orders ?s1 oid = None" "filter (\<lambda>r. order_id r = oid) (order_items ?s1) = []"
    by (simp_all add: filter_empty_conv)
  then have 2: "delete_order oid ?s1 = (NotFound, ?s1)"
    by (rule delete_order_absent)
  have "products ?s1 k =
      map_option (\<lambda>row. row\<lparr>quantity := quantity row + reserved oid s k\<rparr>) (products s k)" for k
    by (simp add: consume_def)
  with 1 2 gone show ?thesis by blast
qed

theorem delete_order_twice_witness:
  "map_option gst_rate (orders abc_order_db ''ORD0001'') = Some 0.18 \<and>
   map_option quantity (products abc_order_db ''A'') = Some 10 \<and>
   map_option quantity (products abc_order_db ''B'') = Some 0 \<and>
   (\<exists>s1. delete_order ''ORD0001'' abc_order_db = (Success (), s1) \<and>
      delete_order ''ORD0001'' s1 = (NotFound, s1) \<and>
      map_option quantity (products s1 ''A'') = Some 13 \<and>
      map_option quantity (products s1 ''B'') = Some 2 \<and>
      map_option quantity (products s1 ''C'') = Some 1)"
proof -
  let ?old = "header_row (order_of [line ''A'' 3 1, line ''B'' 2 1] (Some 0.18)) None (5 + 5 * 0.18) 0.18"
  have h1: "orders abc_order_db ''ORD0001'' = Some ?old"
    by (simp add: abc_order_db_def)
  have res: "reserved ''ORD0001'' abc_order_db ''A'' = 3" "reserved ''ORD0001'' abc_order_db ''B'' = 2"
    "reserved ''ORD0001'' abc_order_db ''C'' = 0"
    by (simp_all add: reserved_def abc_order_db_def item_row_def line_def)
  from delete_order_twice [OF h1] obtain s1 where
    *: "delete_order ''ORD0001'' abc_order_db = (Success (), s1)"
    "delete_order ''ORD0001'' s1 = (NotFound, s1)"
    "\<forall>k. products s1 k =
       map_option (\<lambda>row. row\<lparr>quantity := quantity row + reserved ''ORD0001'' abc_order_db k\<rparr>)
         (products abc_order_db k)"
    by blast
  from *(3) have "map_option quantity (products s1 ''A'') = Some 13"
    "map_option quantity (products s1 ''B'') = Some 2"
    "map_option quantity (products s1 ''C'') = Some 1"
    by (simp_all add: res) (simp_all add: abc_order_db_def abc_db_def)
  moreover have "map_option quantity (products abc_order_db ''A'') = Some 10"
    "map_option quantity (products abc_order_db ''B'') = Some 0"
    by (simp_all add: abc_order_db_def abc_db_def)
  ultimately show ?thesis using *(1,2) h1
    by (auto simp: header_row_def)
qed

section \<open>Deleting a category: lemmas and properties\<close>

lemma delete_category_keeps_products:
  "products (snd (delete_category nm s)) = products s"
  by (simp add: delete_category_def delete_from_categories_def connect_def)

lemma delete_from_categories_enforced:
  assumes "nm \<in> categories s" and "products s k = Some p"
  shows "products (snd (delete_from_categories \<lparr>foreign_keys = True\<rparr> nm s)) k =
     Some (if category p = Some nm then p\<lparr>category := None\<rparr> else p)"
  using assms by (simp add: delete_from_categories_def)

text \<open>
  Claim C8. Deleting a category is meant to set the category of every product that
  refers to it to null and to delete no product. \<^verbatim>\<open>delete_category\<close> deletes no product,
  but it runs its statement on a fresh connection, on which foreign keys are not
  enforced, so the declared \<^verbatim>\<open>ON DELETE SET NULL\<close> never runs: after category
  \<^verbatim>\<open>Helmets\<close> has been deleted, product \<^verbatim>\<open>SKU1\<close> still carries it.
\<close>

theorem delete_category_leaves_reference:
  "''Helmets'' \<in> categories category_example_db \<and>
   map_option category (products category_example_db ''SKU1'') = Some (Some ''Helmets'') \<and>
   fst (delete_category ''Helmets'' category_example_db) = Success () \<and>
   ''Helmets'' \<notin> categories (snd (delete_category ''Helmets'' category_example_db)) \<and>
   map_option category (products (snd (delete_category ''Helmets'' category_example_db)) ''SKU1'') =
     Some (Some ''Helmets'')"
  by (simp add: delete_category_def delete_from_categories_def connect_def category_example_db_def)

section \<open>Where the stock stays non-negative\<close>

lemma update_order_body_absent:
  assumes "orders s oid = None"
  shows "\<exists>e. update_order_body ks oid od s = Inl e"
  using assms unfolding update_order_body_def Let_def
  by (simp split: option.splits)

lemma update_order_keeps_stock_non_negative:
  assumes nn: "stock_non_negative s" and ks: "iteration_order ks oid (items od) s"
  shows "stock_non_negative (snd (update_order ks oid od s))"
proof (cases "orders s oid")
  case None
  from update_order_body_absent [OF None] obtain e where "update_order_body ks oid od s = Inl e"
    by blast
  with nn show ?thesis by (simp add: update_order_def)
next
  case (Some old)
  let ?ds = "deltas_of ks (old_items_of oid s) (new_map_of (items od))"
  let ?d = "\<lambda>k. requested (items od) k - reserved oid s k"
  show ?thesis
  proof (cases "validate_deltas s ?ds")
    case (Some e)
    with nn \<open>orders s oid = Some old\<close> show ?thesis
      by (simp add: update_order_def update_order_body_found)
  next
    case None
    have bound: "?d k \<le> quantity row" if row: "products s k = Some row" for k row
    proof (cases "0 < ?d k")
      case False
      with nn row show ?thesis by (force simp: stock_non_negative_def)
    next
      case True
      have "k \<in> set ks"
      proof (rule ccontr)
        assume "k \<notin> set ks"
        with ks have "requested (items od) k = 0" "reserved oid s k = 0"
          by (simp_all add: iteration_order_def requested_outside reserved_outside)
        with True show False by simp
      qed
      with None True have "\<exists>row. products s k = Some row \<and> ?d k \<le> quantity row"
        unfolding validate_deltas_None_iff deltas_of_eq by auto
      with row show ?thesis by simp
    qed
    have "products (snd (update_order ks oid od s)) = consume ?d (products s)"
      using None \<open>orders s oid = Some old\<close>
      by (simp add: update_order_def update_order_body_found apply_deltas_of [OF ks])
    with bound show ?thesis
      by (auto simp: stock_non_negative_def consume_def)
  qed
qed

lemma requested_distinct:
  "distinct (map sku its) \<Longrightarrow> it \<in> set its \<Longrightarrow> requested its (sku it) = item_quantity it"
proof (induction its)
  case Nil
  then show ?case by simp
next
  case (Cons x its)
  show ?case
  proof (cases "x = it")
    case True
    with Cons.prems have "sku it \<notin> set (map sku its)" by simp
    then have "requested its (sku it) = 0" by (rule requested_outside)
    with True show ?thesis by (simp add: requested_Cons)
  next
    case False
    with Cons.prems have "it \<in> set its" "sku x \<noteq> sku it" by auto
    with Cons show ?thesis by (simp add: requested_Cons)
  qed
qed

lemma create_keeps_stock_non_negative:
  assumes nn: "stock_non_negative s" and d: "distinct (map sku (items od))"
  shows "stock_non_negative (snd (handle_create_order od s))"
proof (cases "create_order_body od s")
  case (Inl e)
  with nn show ?thesis by (simp add: handle_create_order_def)
next
  case (Inr r)
  from create_order_body_Inr [OF Inr]
  have ok: "\<forall>it\<in>set (items od). \<not> insufficient s it"
    and fresh: "orders s (new_order_id_of (last_number s + 1)) = None"
    by simp_all
  have bound: "requested (items od) k \<le> quantity row" if row: "products s k = Some row" for k row
  proof (cases "k \<in> set (map sku (items od))")
    case False
    then have "requested (items od) k = 0" by (rule requested_outside)
    with nn row show ?thesis by (force simp: stock_non_negative_def)
  next
    case True
    then obtain it where it: "it \<in> set (items od)" "sku it = k" by auto
    with ok row have "item_quantity it \<le> quantity row"
      by (auto simp: not_insufficient_iff)
    with requested_distinct [OF d it(1)] it(2) show ?thesis by simp
  qed
  have "products (snd (handle_create_order od s)) = consume (requested (items od)) (products s)"
    by (simp add: handle_create_order_def create_order_body_success [OF ok fresh])
  with bound show ?thesis
    by (auto simp: stock_non_negative_def consume_def)
qed

lemma delete_order_products:
  "products (snd (delete_order oid s)) = consume (\<lambda>k. - reserved oid s k) (products s)"
proof (cases "filter (\<lambda>r. order_id r = oid) (order_items s) = []")
  case True
  then have "(\<lambda>k. - reserved oid s k) = (\<lambda>k. 0)"
    by (simp add: reserved_none)
  with True show ?thesis
    by (simp add: delete_order_def delete_order_row_def consume_zero split: option.splits)
next
  case False
  then show ?thesis
    by (simp add: delete_order_def delete_order_row_def Let_def return_stock_order
        split: option.splits)
qed

lemma delete_keeps_stock_non_negative:
  assumes nn: "stock_non_negative s"
    and rows: "\<forall>r\<in>set (order_items s). order_id r = oid \<longrightarrow> 0 \<le> row_quantity r"
  shows "stock_non_negative (snd (delete_order oid s))"
proof -
  have "0 \<le> reserved oid s k" for k
    unfolding reserved_def using rows by (intro sum_list_nonneg) auto
  with nn show ?thesis
    by (fastforce simp: stock_non_negative_def delete_order_products consume_def)
qed

text \<open>
  The hypothesis on the stored rows is needed: an order created with a negative quantity
  takes stock away again when it is deleted. From the three-product store, minus five
  units of \<^verbatim>\<open>B\<close> are ordered, then five units of \<^verbatim>\<open>B\<close>, then the first order is deleted.
\<close>

lemma delete_order_negative_row:
  "fst (handle_create_order (order_of [line ''B'' (- 5) 1] None) abc_db) = Success ''ORD0001'' \<and>
   fst (handle_create_order (order_of [line ''B'' 5 1] None)
     (snd (handle_create_order (order_of [line ''B'' (- 5) 1] None) abc_db))) = Success ''ORD0002'' \<and>
   map_option quantity (products
     (snd (handle_create_order (order_of [line ''B'' 5 1] None)
       (snd (handle_create_order (order_of [line ''B'' (- 5) 1] None) abc_db)))) ''B'') = Some 0 \<and>
   map_option quantity (products
     (snd (delete_order ''ORD0001''
       (snd (handle_create_order (order_of [line ''B'' 5 1] None)
         (snd (handle_create_order (order_of [line ''B'' (- 5) 1] None) abc_db)))))) ''B'') =
     Some (- 5)"
proof -
  let ?od1 = "order_of [line ''B'' (- 5) 1] None"
  let ?od2 = "order_of [line ''B'' 5 1] None"
  define s1 where "s1 =
       abc_db\<lparr>last_number := 1,
         orders := [''ORD0001'' \<mapsto> header_row ?od1 None (- 5 + - 5 * GST_RATE) GST_RATE],
         order_items := [item_row ''ORD0001'' (line ''B'' (- 5) 1)],
         products := (products abc_db)(''B'' \<mapsto>
           \<lparr>name = ''B'', category = None, quantity = 5, price = 1\<rparr>)\<rparr>"
  define s2 where "s2 =
       s1\<lparr>last_number := 2,
         orders := (orders s1)(''ORD0002'' \<mapsto>
           header_row ?od2 None (5 + 5 * GST_RATE) GST_RATE),
         order_items := [item_row ''ORD0001'' (line ''B'' (- 5) 1), item_row ''ORD0002'' (line ''B'' 5 1)],
         products := (products abc_db)(''B'' \<mapsto>
           \<lparr>name = ''B'', category = None, quantity = 0, price = 1\<rparr>)\<rparr>"
  have id2: "new_order_id_of 2 = ''ORD0002''"
    by (simp add: new_order_id_of_def format_04d_def zero_pad_def str_nat.simps digit_char_def
      numeral_3_eq_3)
  have r1: "handle_create_order ?od1 abc_db = (Success ''ORD0001'', s1)"
    by (simp add: handle_create_order_def create_order_body_def order_of_def line_def s1_def
      abc_db_def subtract_quantity_def new_order_id_of_1 Let_def subtotal_of_def)
  have r2: "handle_create_order ?od2 s1 = (Success ''ORD0002'', s2)"
    by (simp add: handle_create_order_def create_order_body_def order_of_def line_def s1_def s2_def
      abc_db_def subtract_quantity_def id2 Let_def subtotal_of_def)
  have r3: "map_option quantity (products (snd (delete_order ''ORD0001'' s2)) ''B'') = Some (- 5)"
    by (simp add: delete_order_def delete_order_row_def add_quantity_def item_row_def line_def
      s1_def s2_def abc_db_def Let_def)
  have q: "map_option quantity (products s2 ''B'') = Some 0"
    by (simp add: s2_def)
  from r1 r2 r3 q show ?thesis by simp
qed

section \<open>The identifier about to be issued is fresh\<close>

lemma consistent_init_db: "consistent init_db"
  by (simp add: consistent_def init_db_def)

lemma consistent_fresh:
  assumes "consistent s"
  shows "orders s (new_order_id_of (last_number s + 1)) = None \<and>
         (\<forall>r\<in>set (order_items s). order_id r \<noteq> new_order_id_of (last_number s + 1))"
proof -
  have "\<not> issued s (new_order_id_of (last_number s + 1))"
    by (auto simp: issued_def dest: new_order_id_of_inj)
  with assms show ?thesis
    by (auto simp: consistent_def)
qed

lemma issued_mono:
  assumes "issued s oid" and "last_number s \<le> last_number s'"
  shows "issued s' oid"
proof -
  from assms(1) obtain n where n: "n \<le> last_number s" "oid = new_order_id_of n"
    unfolding issued_def by blast
  from n(1) assms(2) have "n \<le> last_number s'" by simp
  with n(2) show ?thesis
    unfolding issued_def by blast
qed

lemma issued_cong: "last_number s' = last_number s \<Longrightarrow> issued s' oid = issued s oid"
  by (simp add: issued_def)

lemma issued_new: "issued s (new_order_id_of (last_number s))"
  unfolding issued_def by (rule exI [of _ "last_number s"]) simp

lemma consistent_create:
  assumes "consistent s"
  shows "consistent (snd (handle_create_order od s))"
proof (cases "create_order_body od s")
  case (Inl e)
  with assms show ?thesis by (simp add: handle_create_order_def)
next
  case (Inr r)
  from create_order_body_Inr [OF Inr]
  have ok: "\<forall>it\<in>set (items od). \<not> insufficient s it"
    and fresh: "orders s (new_order_id_of (last_number s + 1)) = None"
    by simp_all
  let ?s' = "snd (handle_create_order od s)"
  have n: "last_number ?s' = last_number s + 1"
    and os: "orders ?s' = (orders s)(new_order_id_of (last_number s + 1) \<mapsto>
                    header_row od (paymentMethod od)
                      (subtotal_of (items od) + subtotal_of (items od) *
                         (case gstRate od of None \<Rightarrow> GST_RATE | Some r \<Rightarrow> r))
                      (case gstRate od of None \<Rightarrow> GST_RATE | Some r \<Rightarrow> r))"
    and rs: "order_items ?s' = order_items s @
                    map (item_row (new_order_id_of (last_number s + 1))) (items od)"
    by (simp_all add: handle_create_order_def create_order_body_success [OF ok fresh])
  have old: "issued ?s' oid" if "issued s oid" for oid
    using that by (rule issued_mono) (simp add: n)
  have new: "issued ?s' (new_order_id_of (last_number s + 1))"
    using issued_new [of ?s'] by (simp add: n)
  show ?thesis
    unfolding consistent_def os rs
    using assms old new by (auto simp: consistent_def item_row_def)
qed

lemma consistent_update:
  assumes "consistent s"
  shows "consistent (snd (update_order ks oid od s))"
proof (cases "update_order_body ks oid od s")
  case (Inl e)
  with assms show ?thesis by (simp add: update_order_def)
next
  case (Inr s')
  obtain old where old: "orders s oid = Some old"
    using Inr update_order_body_absent [of s oid ks od] by (cases "orders s oid") auto
  let ?ds = "deltas_of ks (old_items_of oid s) (new_map_of (items od))"
  from Inr old have s': "s' = apply_deltas ?ds
            (s\<lparr>orders := (orders s)(oid \<mapsto>
                 header_row od (case paymentMethod od of Some [] \<Rightarrow> None | pm \<Rightarrow> pm)
                   (subtotal_of (items od) + subtotal_of (items od) *
                      (case gstRate od of None \<Rightarrow> gst_rate old | Some r \<Rightarrow> r))
                   (case gstRate od of None \<Rightarrow> gst_rate old | Some r \<Rightarrow> r)),
               order_items := filter (\<lambda>r. order_id r \<noteq> oid) (order_items s) @
                 map (item_row oid) (items od)\<rparr>)"
    by (simp add: update_order_body_found split: option.splits)
  have n: "last_number s' = last_number s"
    and os: "dom (orders s') = dom (orders s)"
    and rs: "order_items s' = filter (\<lambda>r. order_id r \<noteq> oid) (order_items s) @
                 map (item_row oid) (items od)"
    using old by (auto simp: s' apply_deltas_consume)
  from old assms have "issued s oid" by (simp add: consistent_def)
  with assms have "consistent s'"
    unfolding consistent_def rs issued_cong [OF n]
    using os by (auto simp: item_row_def)
  with Inr show ?thesis by (simp add: update_order_def)
qed

lemma consistent_delete:
  assumes "consistent s"
  shows "consistent (snd (delete_order oid s))"
proof -
  let ?s' = "snd (delete_order oid s)"
  have n: "last_number ?s' = last_number s"
    and os: "orders ?s' = (orders s)(oid := None)"
    and rs: "order_items ?s' = filter (\<lambda>r. order_id r \<noteq> oid) (order_items s)"
  proof -
    show "last_number ?s' = last_number s"
      by (simp add: delete_order_def delete_order_row_def Let_def return_stock_order
          split: option.splits)
    show "orders ?s' = (orders s)(oid := None)"
      by (auto simp: delete_order_def delete_order_row_def Let_def return_stock_order
          split: option.splits)
    show "order_items ?s' = filter (\<lambda>r. order_id r \<noteq> oid) (order_items s)"
      by (auto simp: delete_order_def delete_order_row_def Let_def return_stock_order
          filter_empty_conv filter_id_conv split: option.splits)
  qed
  from assms show ?thesis
    unfolding consistent_def os rs issued_cong [OF n] by auto
qed

lemma consistent_delete_category:
  assumes "consistent s"
  shows "consistent (snd (delete_category nm s))"
  using assms
  by (simp add: delete_category_def delete_from_categories_def connect_def consistent_def
      issued_def)

end
